theory Spec2Isabelle
  imports Complex_Main
begin

section \<open>Fruit Catcher: the game engine of js/gameEngine.js\<close>

text \<open>
  The class \<open>GameEngine\<close> is embedded as a record of its fields and one function per
  method, each taking the engine and returning the updated engine.

  Numbers. JavaScript numbers are doubles. Score, level and lane are integers here
  (\<open>int\<close>); vertical position, fall speed and the remaining time are rationals
  (\<open>rat\<close>): every position and speed the engine computes is a multiple of one half
  of small magnitude, on which double arithmetic is exact. The spawn probabilities
  0.6, 0.3 and 0.1 are taken as exact rationals; no theorem below depends on a draw
  that lies within rounding distance of a cumulative threshold.

  Host. \<open>setInterval\<close>, \<open>setTimeout\<close> and \<open>requestAnimationFrame\<close> are modelled
  by a table of scheduled tasks keyed by the handle the host returned; handles are
  positive, so a stored handle is truthy and \<open>None\<close> stands for \<open>null\<close>.
  The three callbacks a caller may register are opaque observers: a call to one of
  them appends an event to \<open>emitted\<close> and does not re-enter the engine.
  \<open>Math.random()\<close> and \<open>Date.now()\<close> are inputs (a \<open>draws\<close> record).
\<close>

subsection \<open>Data\<close>

datatype item_type = Apple | Orange | Bomb

text \<open>An entry of \<open>this.itemTypes\<close>.\<close>

record item_def =
  def_type :: item_type
  def_score :: int
  def_speed :: rat
  def_probability :: rat

text \<open>A falling item, as built in \<open>spawnItem\<close>.\<close>

record item =
  item_id :: rat
  item_type :: item_type
  item_score :: int
  item_speed :: rat
  item_lane :: int
  item_y :: rat

text \<open>The object handed to the state-update callback.\<close>

record snapshot =
  snap_basketPosition :: int
  snap_items :: "item list"
  snap_timeLimit :: rat
  snap_score :: int
  snap_level :: int

datatype event =
    ScoreChange int int
  | GameEnd int int
  | StateUpdate snapshot
  | Alert

text \<open>
  What the host has been asked to run later: the countdown closure of \<open>startTimer\<close>
  (repeating, with its period), the closure of \<open>spawnLoop\<close> (once, with its delay),
  the closure of \<open>gameLoop\<close> (once, at the next frame).
\<close>

datatype task = CountdownInterval int | SpawnTimeout int | AnimationFrame

record engine =
  score :: int
  level :: int
  timeLimit :: rat
  isGameActive :: bool
  gameTimer :: "nat option"
  basketPosition :: int
  items :: "item list"
  animationId :: "nat option"
  itemSpawnTimer :: "nat option"
  onScoreChange :: bool
  onGameEnd :: bool
  onGameStateUpdate :: bool
  scheduled :: "(nat \<times> task) list"
  nextHandle :: nat
  emitted :: "event list"

text \<open>
  The argument of \<open>start\<close>. \<open>None\<close> is a \<open>timeLimit\<close> property that is absent
  (or holds \<open>undefined\<close>, \<open>null\<close>, \<open>false\<close>, the empty string or \<open>NaN\<close>, which
  \<open>||\<close> treats alike); \<open>Some n\<close> is the number \<open>n\<close>.
\<close>

record config =
  cfg_timeLimit :: "rat option"

text \<open>
  What one \<open>spawnItem\<close> draws. \<open>draw_lane\<close> is the value of the product
  \<open>Math.random() * 3\<close>, a double in [0, 3): the product is rounded, so it is taken
  as drawn and only \<open>Math.floor\<close>, which is exact, is computed from it.
  \<open>draw_type\<close> is the value of the second \<open>Math.random()\<close>, in [0, 1), and
  \<open>draw_id\<close> the value of the id expression.
\<close>

record draws =
  draw_lane :: rat
  draw_type :: rat
  draw_id :: rat

definition itemTypes :: "item_def list" where
  "itemTypes =
    [\<lparr>def_type = Apple, def_score = 100, def_speed = 5, def_probability = 6 / 10\<rparr>,
     \<lparr>def_type = Orange, def_score = 200, def_speed = 7, def_probability = 3 / 10\<rparr>,
     \<lparr>def_type = Bomb, def_score = 0, def_speed = 6, def_probability = 1 / 10\<rparr>]"

text \<open>The constructor; no task is scheduled, the first handle is 1.\<close>

definition constructor :: engine where
  "constructor =
    \<lparr>score = 0, level = 1, timeLimit = 0, isGameActive = False, gameTimer = None,
     basketPosition = 1, items = [], animationId = None, itemSpawnTimer = None,
     onScoreChange = False, onGameEnd = False, onGameStateUpdate = False,
     scheduled = [], nextHandle = 1, emitted = []\<rparr>"

subsection \<open>Host operations\<close>

definition emit :: "event \<Rightarrow> engine \<Rightarrow> engine" where
  "emit e s = s\<lparr>emitted := emitted s @ [e]\<rparr>"

text \<open>Registering a task returns a fresh handle.\<close>

definition schedule :: "task \<Rightarrow> engine \<Rightarrow> nat \<times> engine" where
  "schedule t s =
    (nextHandle s, s\<lparr>scheduled := scheduled s @ [(nextHandle s, t)],
                      nextHandle := Suc (nextHandle s)\<rparr>)"

text \<open>\<open>clearInterval\<close>, \<open>clearTimeout\<close>, \<open>cancelAnimationFrame\<close>.\<close>

definition cancel :: "nat \<Rightarrow> engine \<Rightarrow> engine" where
  "cancel h s = s\<lparr>scheduled := filter (\<lambda>p. fst p \<noteq> h) (scheduled s)\<rparr>"

subsection \<open>Methods\<close>

definition notifyStateUpdate :: "engine \<Rightarrow> engine" where
  "notifyStateUpdate s =
    (if onGameStateUpdate s
     then emit (StateUpdate \<lparr>snap_basketPosition = basketPosition s, snap_items = items s,
                             snap_timeLimit = timeLimit s, snap_score = score s,
                             snap_level = level s\<rparr>) s
     else s)"

definition clearTimer :: "engine \<Rightarrow> engine" where
  "clearTimer s =
    (case gameTimer s of
       Some h \<Rightarrow> (cancel h s)\<lparr>gameTimer := None\<rparr>
     | None \<Rightarrow> s)"

definition stop :: "engine \<Rightarrow> engine" where
  "stop s =
    (let s1 = clearTimer (s\<lparr>isGameActive := False\<rparr>);
         s2 = (case animationId s1 of
                 Some h \<Rightarrow> (cancel h s1)\<lparr>animationId := None\<rparr>
               | None \<Rightarrow> s1);
         s3 = (case itemSpawnTimer s2 of
                 Some h \<Rightarrow> (cancel h s2)\<lparr>itemSpawnTimer := None\<rparr>
               | None \<Rightarrow> s2)
     in if onGameEnd s3 then emit (GameEnd (score s3) (level s3)) s3 else s3)"

definition startTimer :: "engine \<Rightarrow> engine" where
  "startTimer s = (case schedule (CountdownInterval 1000) s of (h, s1) \<Rightarrow> s1\<lparr>gameTimer := Some h\<rparr>)"

text \<open>The closure given to \<open>setInterval\<close> in \<open>startTimer\<close>.\<close>

definition countdownTick :: "engine \<Rightarrow> engine" where
  "countdownTick s =
    (let s1 = notifyStateUpdate (s\<lparr>timeLimit := timeLimit s - 1\<rparr>)
     in if timeLimit s1 \<le> 0 then stop s1 else s1)"

text \<open>
  The \<open>for ... of\<close> loop of \<open>spawnItem\<close>: \<open>cum\<close> is \<open>cumulativeProb\<close>, \<open>sel\<close> the
  value \<open>selectedType\<close> keeps when the loop ends without a \<open>break\<close>.
\<close>

fun selectType :: "rat \<Rightarrow> rat \<Rightarrow> item_def list \<Rightarrow> item_def \<Rightarrow> item_def" where
  "selectType rand cum [] sel = sel"
| "selectType rand cum (t # ts) sel =
    (if rand \<le> cum + def_probability t then t
     else selectType rand (cum + def_probability t) ts sel)"

definition levelGate :: "int \<Rightarrow> item_def \<Rightarrow> item_def" where
  "levelGate lv sel =
    (let sel1 = (if lv < 2 \<and> def_type sel = Orange then itemTypes ! 0 else sel)
     in if lv < 3 \<and> def_type sel1 = Bomb then itemTypes ! 0 else sel1)"

definition spawnItem :: "draws \<Rightarrow> engine \<Rightarrow> engine" where
  "spawnItem d s =
    (let laneIndex = \<lfloor>draw_lane d\<rfloor>;
         selectedType = levelGate (level s) (selectType (draw_type d) 0 itemTypes (itemTypes ! 0));
         newItem = \<lparr>item_id = draw_id d, item_type = def_type selectedType,
                    item_score = def_score selectedType,
                    item_speed = def_speed selectedType + of_int (level s) * (1 / 2),
                    item_lane = laneIndex, item_y = - 50\<rparr>
     in s\<lparr>items := items s @ [newItem]\<rparr>)"

definition spawnRate :: "int \<Rightarrow> int" where
  "spawnRate lv = max 800 (3000 - lv * 400)"

definition spawnLoop :: "draws \<Rightarrow> engine \<Rightarrow> engine" where
  "spawnLoop d s =
    (if \<not> isGameActive s then s
     else (let rate = spawnRate (level s);
               s1 = spawnItem d s
           in case schedule (SpawnTimeout rate) s1 of (h, s2) \<Rightarrow> s2\<lparr>itemSpawnTimer := Some h\<rparr>))"

text \<open>\<open>Array.prototype.splice(i, 1)\<close>.\<close>

definition splice_at :: "nat \<Rightarrow> 'a list \<Rightarrow> 'a list" where
  "splice_at i xs = take i xs @ drop (Suc i) xs"

text \<open>
  The loop of \<open>updateItems\<close>. The first argument is \<open>i + 1\<close>: the loop variable runs from
  \<open>length - 1\<close> down to 0, so the call is at \<open>length (items s)\<close>. A splice at \<open>i\<close> moves
  only the elements above \<open>i\<close>, so every index read is in range.
\<close>

fun updateItems_loop :: "nat \<Rightarrow> engine \<Rightarrow> engine" where
  "updateItems_loop 0 s = s"
| "updateItems_loop (Suc i) s =
    (let old = items s ! i;
         item = old\<lparr>item_y := item_y old + item_speed old\<rparr>;
         s1 = s\<lparr>items := (items s)[i := item]\<rparr>
     in updateItems_loop i
          (if item_y item > 600 then s1\<lparr>items := splice_at i (items s1)\<rparr> else s1))"

definition updateItems :: "engine \<Rightarrow> engine" where
  "updateItems s = updateItems_loop (length (items s)) s"

definition addScore :: "int \<Rightarrow> engine \<Rightarrow> engine" where
  "addScore points s =
    (let s1 = s\<lparr>score := score s + points\<rparr>;
         newLevel = score s1 div 500 + 1;
         s2 = (if newLevel > level s1 then s1\<lparr>level := newLevel\<rparr> else s1)
     in if onScoreChange s2 then emit (ScoreChange (score s2) (level s2)) s2 else s2)"

definition handleItemCollection :: "item \<Rightarrow> engine \<Rightarrow> engine" where
  "handleItemCollection item s =
    (if item_type item = Bomb then emit Alert (stop s)
     else addScore (item_score item) s)"

text \<open>The loop of \<open>checkCollisions\<close>, indexed as \<open>updateItems_loop\<close> is.\<close>

fun checkCollisions_loop :: "nat \<Rightarrow> engine \<Rightarrow> engine" where
  "checkCollisions_loop 0 s = s"
| "checkCollisions_loop (Suc i) s =
    (let item = items s ! i
     in checkCollisions_loop i
          (if \<bar>item_y item - 500\<bar> < 30 \<and> item_lane item = basketPosition s
           then (let s1 = handleItemCollection item s
                 in s1\<lparr>items := splice_at i (items s1)\<rparr>)
           else s))"

definition checkCollisions :: "engine \<Rightarrow> engine" where
  "checkCollisions s = checkCollisions_loop (length (items s)) s"

definition gameLoop :: "engine \<Rightarrow> engine" where
  "gameLoop s =
    (if \<not> isGameActive s then s
     else (let s1 = notifyStateUpdate (checkCollisions (updateItems s))
           in case schedule AnimationFrame s1 of (h, s2) \<Rightarrow> s2\<lparr>animationId := Some h\<rparr>))"

text \<open>\<open>config.timeLimit || 60\<close>: a number other than 0 is truthy.\<close>

definition timeLimit_or_default :: "config \<Rightarrow> rat" where
  "timeLimit_or_default cfg =
    (case cfg_timeLimit cfg of
       Some n \<Rightarrow> if n \<noteq> 0 then n else 60
     | None \<Rightarrow> 60)"

definition start :: "config \<Rightarrow> draws \<Rightarrow> engine \<Rightarrow> engine" where
  "start cfg d s =
    (let s1 = s\<lparr>isGameActive := True, score := 0, level := 1,
                timeLimit := timeLimit_or_default cfg, basketPosition := 1, items := []\<rparr>;
         s2 = (if timeLimit s1 > 0 then startTimer s1 else s1)
     in notifyStateUpdate (gameLoop (spawnLoop d s2)))"

definition onPoseDetected :: "string \<Rightarrow> engine \<Rightarrow> engine" where
  "onPoseDetected detectedPose s =
    (if \<not> isGameActive s then s
     else if detectedPose = ''Left'' then s\<lparr>basketPosition := 0\<rparr>
     else if detectedPose = ''Center'' then s\<lparr>basketPosition := 1\<rparr>
     else if detectedPose = ''Right'' then s\<lparr>basketPosition := 2\<rparr>
     else s)"

subsection \<open>The engine driven by its caller and by the host\<close>

text \<open>
  The host runs a scheduled task: an interval stays scheduled, a timeout or an
  animation frame is consumed by running. A handle that is not scheduled runs nothing.
\<close>

definition fire :: "nat \<Rightarrow> draws \<Rightarrow> engine \<Rightarrow> engine" where
  "fire h d s =
    (case map_of (scheduled s) h of
       None \<Rightarrow> s
     | Some (CountdownInterval ms) \<Rightarrow> countdownTick s
     | Some (SpawnTimeout ms) \<Rightarrow> spawnLoop d (cancel h s)
     | Some AnimationFrame \<Rightarrow> gameLoop (cancel h s))"

datatype action =
    Start config draws
  | Stop
  | OnPoseDetected string
  | Fire nat draws
  | SetScoreChangeCallback bool
  | SetGameEndCallback bool
  | SetGameStateUpdateCallback bool

fun perform :: "action \<Rightarrow> engine \<Rightarrow> engine" where
  "perform (Start cfg d) s = start cfg d s"
| "perform Stop s = stop s"
| "perform (OnPoseDetected p) s = onPoseDetected p s"
| "perform (Fire h d) s = fire h d s"
| "perform (SetScoreChangeCallback b) s = s\<lparr>onScoreChange := b\<rparr>"
| "perform (SetGameEndCallback b) s = s\<lparr>onGameEnd := b\<rparr>"
| "perform (SetGameStateUpdateCallback b) s = s\<lparr>onGameStateUpdate := b\<rparr>"

text \<open>The states an engine can be in: built by the constructor, then driven.\<close>

inductive reachable :: "engine \<Rightarrow> bool" where
  reachable_constructor: "reachable constructor"
| reachable_perform: "reachable s \<Longrightarrow> reachable (perform a s)"

fun is_Start :: "action \<Rightarrow> bool" where
  "is_Start (Start cfg d) = True"
| "is_Start a = False"

subsection \<open>Notions used to state the properties\<close>

text \<open>One step of falling: \<open>item.y += item.speed\<close> in \<open>updateItems\<close>.\<close>

definition fall :: "item \<Rightarrow> item" where
  "fall it = it\<lparr>item_y := item_y it + item_speed it\<rparr>"

text \<open>
  The two nested tests of \<open>checkCollisions\<close>, with \<open>catcherY = 500\<close> and
  \<open>hitRange = 30\<close>; \<open>b\<close> is the basket lane.
\<close>

definition collides :: "int \<Rightarrow> item \<Rightarrow> bool" where
  "collides b it = (\<bar>item_y it - 500\<bar> < 30 \<and> item_lane it = b)"

text \<open>The invariant behind the scoring properties.\<close>

definition score_level_inv :: "engine \<Rightarrow> bool" where
  "score_level_inv s \<longleftrightarrow>
     0 \<le> score s \<and> level s = score s div 500 + 1 \<and> (\<forall>it \<in> set (items s). 0 \<le> item_score it)"

text \<open>
  A game in progress at level 3, all three callbacks registered, the basket in the
  centre lane. An apple (spawned first) and a bomb (spawned later) fall in the centre
  lane; the next tick brings both into the hit band, at 476.5 and 475.
\<close>

definition bomb_tick_state :: engine where
  "bomb_tick_state =
    constructor\<lparr>isGameActive := True, score := 1000, level := 3, timeLimit := 30,
      onScoreChange := True, onGameEnd := True, onGameStateUpdate := True,
      gameTimer := Some 1, scheduled := [(1, CountdownInterval 1000), (7, SpawnTimeout 1800)],
      itemSpawnTimer := Some 7, animationId := Some 8, nextHandle := 9,
      items := [\<lparr>item_id = 1, item_type = Apple, item_score = 100, item_speed = 13 / 2,
                  item_lane = 1, item_y = 470\<rparr>,
                \<lparr>item_id = 2, item_type = Bomb, item_score = 0, item_speed = 15 / 2,
                  item_lane = 1, item_y = 935 / 2\<rparr>]\<rparr>"

text \<open>
  A game in progress with the basket in the right lane and three apples: one about to
  enter the hit band in the basket's lane, one at the same height in the left lane,
  one about to leave the play area.
\<close>

definition catch_state :: engine where
  "catch_state =
    constructor\<lparr>isGameActive := True, basketPosition := 2,
      items := [\<lparr>item_id = 1, item_type = Apple, item_score = 100, item_speed = 11 / 2,
                  item_lane = 2, item_y = 467\<rparr>,
                \<lparr>item_id = 2, item_type = Apple, item_score = 100, item_speed = 11 / 2,
                  item_lane = 0, item_y = 467\<rparr>,
                \<lparr>item_id = 3, item_type = Apple, item_score = 100, item_speed = 11 / 2,
                  item_lane = 2, item_y = 599\<rparr>]\<rparr>"

text \<open>
  The engine right after each call of \<open>handleItemCollection\<close> that the loop of
  \<open>checkCollisions\<close> makes, in the order of the calls: the loop itself, recording the
  state where it collects. For an item that is not a bomb this is the state right
  after \<open>addScore\<close>.
\<close>

fun checkCollisions_states :: "nat \<Rightarrow> engine \<Rightarrow> engine list" where
  "checkCollisions_states 0 s = []"
| "checkCollisions_states (Suc i) s =
    (let item = items s ! i
     in if \<bar>item_y item - 500\<bar> < 30 \<and> item_lane item = basketPosition s
        then (let s1 = handleItemCollection item s
              in s1 # checkCollisions_states i (s1\<lparr>items := splice_at i (items s1)\<rparr>))
        else checkCollisions_states i s)"

text \<open>The same for a whole tick: \<open>gameLoop\<close> runs the loop after \<open>updateItems\<close>.\<close>

definition collection_states :: "engine \<Rightarrow> engine list" where
  "collection_states s =
    (if \<not> isGameActive s then []
     else checkCollisions_states (length (items (updateItems s))) (updateItems s))"

text \<open>
  The state on which an action calls \<open>gameLoop\<close>, if it does: \<open>start\<close> calls it after
  the reset, \<open>startTimer\<close> and \<open>spawnLoop\<close>; the host calls it for an animation
  frame, which is thereby consumed.
\<close>

fun tick_input :: "action \<Rightarrow> engine \<Rightarrow> engine option" where
  "tick_input (Start cfg d) s =
    (let s1 = s\<lparr>isGameActive := True, score := 0, level := 1,
                timeLimit := timeLimit_or_default cfg, basketPosition := 1, items := []\<rparr>;
         s2 = (if timeLimit s1 > 0 then startTimer s1 else s1)
     in Some (spawnLoop d s2))"
| "tick_input (Fire h d) s =
    (case map_of (scheduled s) h of
       Some AnimationFrame \<Rightarrow> Some (cancel h s)
     | _ \<Rightarrow> None)"
| "tick_input a s = None"

text \<open>The host runs the animation frame the engine last asked for.\<close>

definition next_frame :: "engine \<Rightarrow> engine" where
  "next_frame s =
    (case animationId s of
       Some h \<Rightarrow> perform (Fire h \<lparr>draw_lane = 0, draw_type = 0, draw_id = 0\<rparr>) s
     | None \<Rightarrow> s)"

text \<open>
  A run of a new engine: the game is started and a score callback registered; the
  spawn timeout is run four times before the next frame, so five apples fall in the
  centre lane, the first one tick ahead; then 94 frames. The first apple is collected
  in the last of these frames; the other four are about to enter the hit band.
\<close>

definition five_apples :: engine where
  "five_apples =
    (next_frame ^^ 94)
      (perform (Fire 6 \<lparr>draw_lane = 1, draw_type = 1 / 2, draw_id = 5\<rparr>)
      (perform (Fire 5 \<lparr>draw_lane = 1, draw_type = 1 / 2, draw_id = 4\<rparr>)
      (perform (Fire 4 \<lparr>draw_lane = 1, draw_type = 1 / 2, draw_id = 3\<rparr>)
      (perform (Fire 2 \<lparr>draw_lane = 1, draw_type = 1 / 2, draw_id = 2\<rparr>)
      (perform (SetScoreChangeCallback True)
      (perform (Start \<lparr>cfg_timeLimit = Some 60\<rparr> \<lparr>draw_lane = 1, draw_type = 1 / 2, draw_id = 1\<rparr>)
         constructor))))))"

section \<open>The two loops of a tick, as filters\<close>

text \<open>
  Both loops walk the array from its last index down and splice in place. Seen from
  outside, \<open>updateItems\<close> lets every item fall one step and keeps those whose
  position does not exceed 600; \<open>checkCollisions\<close> hands every colliding item to
  \<open>handleItemCollection\<close> once, the last index first, and keeps the others.
\<close>

lemma updateItems_loop_filter:
  "n \<le> length (items s) \<Longrightarrow>
   updateItems_loop n s =
     s\<lparr>items := [it \<leftarrow> map fall (take n (items s)). item_y it \<le> 600] @ drop n (items s)\<rparr>"
proof (induction n arbitrary: s)
  case 0
  then show ?case by simp
next
  case (Suc n)
  let ?xs = "items s"
  from Suc.prems have n: "n < length ?xs" by simp
  have tk: "take (Suc n) ?xs = take n ?xs @ [?xs ! n]"
    using n by (simp add: take_Suc_conv_app_nth)
  have dr: "drop n (?xs[n := fall (?xs ! n)]) = fall (?xs ! n) # drop (Suc n) ?xs"
    using n by (metis Cons_nth_drop_Suc drop_update_cancel length_list_update lessI nth_list_update_eq)
  show ?case
  proof (cases "item_y (fall (?xs ! n)) > 600")
    case True
    have "updateItems_loop (Suc n) s = updateItems_loop n (s\<lparr>items := take n ?xs @ drop (Suc n) ?xs\<rparr>)"
      using True n by (simp add: Let_def splice_at_def fall_def)
    also have "\<dots> = s\<lparr>items := [it \<leftarrow> map fall (take n ?xs). item_y it \<le> 600] @ drop (Suc n) ?xs\<rparr>"
      using n by (subst Suc.IH) (simp_all add: min_absorb2)
    finally show ?thesis using True by (simp add: tk)
  next
    case False
    have "updateItems_loop (Suc n) s = updateItems_loop n (s\<lparr>items := ?xs[n := fall (?xs ! n)]\<rparr>)"
      using False n by (simp add: Let_def splice_at_def fall_def)
    also have "\<dots> = s\<lparr>items := [it \<leftarrow> map fall (take n ?xs). item_y it \<le> 600] @ fall (?xs ! n) # drop (Suc n) ?xs\<rparr>"
      using n dr by (subst Suc.IH) simp_all
    finally show ?thesis using False by (simp add: tk)
  qed
qed

lemma updateItems_filter:
  "updateItems s = s\<lparr>items := [it \<leftarrow> map fall (items s). item_y it \<le> 600]\<rparr>"
  by (simp add: updateItems_def updateItems_loop_filter)

lemma handleItemCollection_items_update:
  "handleItemCollection it (s\<lparr>items := l\<rparr>) = (handleItemCollection it s)\<lparr>items := l\<rparr>"
  by (simp add: handleItemCollection_def stop_def clearTimer_def cancel_def emit_def addScore_def
        Let_def split: option.splits)

lemma handleItemCollection_items: "items (handleItemCollection it s) = items s"
  by (simp add: handleItemCollection_def stop_def clearTimer_def cancel_def emit_def addScore_def
        Let_def split: option.splits)

lemma handleItemCollection_basket: "basketPosition (handleItemCollection it s) = basketPosition s"
  by (simp add: handleItemCollection_def stop_def clearTimer_def cancel_def emit_def addScore_def
        Let_def split: option.splits)

lemma foldr_handle_items_update:
  "foldr handleItemCollection cs (s\<lparr>items := l\<rparr>) = (foldr handleItemCollection cs s)\<lparr>items := l\<rparr>"
  by (induction cs) (simp_all add: handleItemCollection_items_update)

lemma foldr_handle_items: "items (foldr handleItemCollection cs s) = items s"
  by (induction cs) (simp_all add: handleItemCollection_items)

lemma foldr_handle_basket: "basketPosition (foldr handleItemCollection cs s) = basketPosition s"
  by (induction cs) (simp_all add: handleItemCollection_basket)

lemma checkCollisions_loop_foldr:
  "n \<le> length (items s) \<Longrightarrow>
   checkCollisions_loop n s =
     (foldr handleItemCollection [it \<leftarrow> take n (items s). collides (basketPosition s) it] s)
       \<lparr>items := [it \<leftarrow> take n (items s). \<not> collides (basketPosition s) it] @ drop n (items s)\<rparr>"
proof (induction n arbitrary: s)
  case 0
  then show ?case by simp
next
  case (Suc n)
  let ?xs = "items s" and ?b = "basketPosition s"
  from Suc.prems have n: "n < length ?xs" by simp
  have tk: "take (Suc n) ?xs = take n ?xs @ [?xs ! n]"
    using n by (simp add: take_Suc_conv_app_nth)
  show ?case
  proof (cases "collides ?b (?xs ! n)")
    case True
    let ?s1 = "(handleItemCollection (?xs ! n) s)\<lparr>items := take n ?xs @ drop (Suc n) ?xs\<rparr>"
    have "checkCollisions_loop (Suc n) s = checkCollisions_loop n ?s1"
      using True by (simp add: Let_def splice_at_def collides_def handleItemCollection_items)
    also have "\<dots> = (foldr handleItemCollection [it \<leftarrow> take n ?xs. collides ?b it] ?s1)
         \<lparr>items := [it \<leftarrow> take n ?xs. \<not> collides ?b it] @ drop (Suc n) ?xs\<rparr>"
      using n by (subst Suc.IH) (simp_all add: handleItemCollection_basket)
    finally show ?thesis
      using True by (simp add: tk foldr_handle_items_update)
  next
    case False
    have "checkCollisions_loop (Suc n) s = checkCollisions_loop n s"
      using False unfolding collides_def by (auto simp add: Let_def)
    also have "\<dots> = (foldr handleItemCollection [it \<leftarrow> take n ?xs. collides ?b it] s)
         \<lparr>items := [it \<leftarrow> take n ?xs. \<not> collides ?b it] @ drop n ?xs\<rparr>"
      using n by (subst Suc.IH) simp_all
    finally show ?thesis
      using False n by (simp add: tk Cons_nth_drop_Suc)
  qed
qed

lemma checkCollisions_foldr:
  "checkCollisions s =
     (foldr handleItemCollection [it \<leftarrow> items s. collides (basketPosition s) it] s)
       \<lparr>items := [it \<leftarrow> items s. \<not> collides (basketPosition s) it]\<rparr>"
  by (simp add: checkCollisions_def checkCollisions_loop_foldr)

section \<open>What start schedules\<close>

text \<open>
  At level 1 the level gate turns every selection into the first table entry, so the
  item \<open>start\<close> spawns is an apple; after the first tick it is at -44.5, far from
  the basket row, and nothing is collected inside \<open>start\<close>.
\<close>

lemma levelGate_1:
  "levelGate 1 (selectType r 0 itemTypes (itemTypes ! 0)) = itemTypes ! 0"
  by (simp add: levelGate_def itemTypes_def Let_def)

lemma spawnItem_level_1:
  "level s = 1 \<Longrightarrow>
   spawnItem d s =
     s\<lparr>items := items s @
        [\<lparr>item_id = draw_id d, item_type = Apple, item_score = 100, item_speed = 11 / 2,
          item_lane = \<lfloor>draw_lane d\<rfloor>, item_y = - 50\<rparr>]\<rparr>"
  by (simp add: spawnItem_def Let_def levelGate_1) (simp add: itemTypes_def)

lemma start_timers:
  "timeLimit (start cfg d s) = timeLimit_or_default cfg \<and>
   isGameActive (start cfg d s) \<and>
   gameTimer (start cfg d s) =
     (if 0 < timeLimit_or_default cfg then Some (nextHandle s) else gameTimer s) \<and>
   filter (\<lambda>p. snd p = CountdownInterval 1000) (scheduled (start cfg d s)) =
     filter (\<lambda>p. snd p = CountdownInterval 1000) (scheduled s) @
       (if 0 < timeLimit_or_default cfg then [(nextHandle s, CountdownInterval 1000)] else [])"
  by (simp add: start_def startTimer_def schedule_def spawnLoop_def spawnItem_level_1
        spawnRate_def gameLoop_def updateItems_filter checkCollisions_foldr collides_def
        fall_def notifyStateUpdate_def emit_def Let_def)

lemma start_countdown_scheduled:
  "0 < timeLimit_or_default cfg \<Longrightarrow>
     (nextHandle s, CountdownInterval 1000) \<in> set (scheduled (start cfg d s))"
  by (simp add: start_def startTimer_def schedule_def spawnLoop_def spawnItem_level_1
        spawnRate_def gameLoop_def updateItems_filter checkCollisions_foldr collides_def
        fall_def notifyStateUpdate_def emit_def Let_def)

section \<open>Score and level along a run\<close>

lemma stop_fields:
  "score (stop s) = score s" "level (stop s) = level s" "items (stop s) = items s"
  "timeLimit (stop s) = timeLimit s" "basketPosition (stop s) = basketPosition s"
  "isGameActive (stop s) = False"
  by (simp_all add: stop_def clearTimer_def cancel_def emit_def Let_def split: option.splits)

lemma addScore_fields:
  "score (addScore p s) = score s + p" "items (addScore p s) = items s"
  "level (addScore p s) = max (level s) ((score s + p) div 500 + 1)"
  by (simp_all add: addScore_def emit_def Let_def)

lemma handle_level_mono: "level s \<le> level (handleItemCollection it s)"
  by (simp add: handleItemCollection_def emit_def stop_fields addScore_fields)

lemma foldr_handle_level_mono: "level s \<le> level (foldr handleItemCollection cs s)"
proof (induction cs)
  case Nil
  show ?case by simp
next
  case (Cons c cs)
  have "level (foldr handleItemCollection cs s) \<le> level (handleItemCollection c (foldr handleItemCollection cs s))"
    by (rule handle_level_mono)
  with Cons show ?case by simp
qed

lemma handle_core:
  assumes "0 \<le> score s" "level s = score s div 500 + 1" "0 \<le> item_score it"
  shows "0 \<le> score (handleItemCollection it s) \<and>
         level (handleItemCollection it s) = score (handleItemCollection it s) div 500 + 1"
proof (cases "item_type it = Bomb")
  case True
  with assms show ?thesis by (simp add: handleItemCollection_def emit_def stop_fields)
next
  case False
  have "score s div 500 \<le> (score s + item_score it) div 500"
    using assms(3) by (intro zdiv_mono1) simp_all
  with False assms show ?thesis
    by (simp add: handleItemCollection_def addScore_fields max_def)
qed

lemma foldr_handle_core:
  assumes "0 \<le> score s" "level s = score s div 500 + 1" "\<forall>c \<in> set cs. 0 \<le> item_score c"
  shows "0 \<le> score (foldr handleItemCollection cs s) \<and>
         level (foldr handleItemCollection cs s) = score (foldr handleItemCollection cs s) div 500 + 1"
  using assms(3)
proof (induction cs)
  case Nil
  with assms show ?case by simp
next
  case (Cons c cs)
  then show ?case using handle_core [of "foldr handleItemCollection cs s" c] by simp
qed

lemma checkCollisions_inv: "score_level_inv s \<Longrightarrow> score_level_inv (checkCollisions s)"
  using foldr_handle_core [of s "[it \<leftarrow> items s. collides (basketPosition s) it]"]
  by (simp add: score_level_inv_def checkCollisions_foldr)

lemma checkCollisions_level_mono: "level s \<le> level (checkCollisions s)"
  by (simp add: checkCollisions_foldr foldr_handle_level_mono)

lemma updateItems_inv: "score_level_inv s \<Longrightarrow> score_level_inv (updateItems s)"
  by (auto simp add: score_level_inv_def updateItems_filter fall_def)

lemma notify_inv: "score_level_inv (notifyStateUpdate s) = score_level_inv s"
  by (simp add: score_level_inv_def notifyStateUpdate_def emit_def)

lemma gameLoop_inv: "score_level_inv s \<Longrightarrow> score_level_inv (gameLoop s)"
proof -
  assume a: "score_level_inv s"
  have "score_level_inv (notifyStateUpdate (checkCollisions (updateItems s)))"
    using a by (simp add: notify_inv checkCollisions_inv updateItems_inv)
  then show ?thesis using a
    by (simp add: gameLoop_def schedule_def Let_def score_level_inv_def)
qed

lemma gameLoop_level_mono: "level s \<le> level (gameLoop s)"
proof -
  have "level (updateItems s) = level s" by (simp add: updateItems_filter)
  then have "level s \<le> level (checkCollisions (updateItems s))"
    using checkCollisions_level_mono [of "updateItems s"] by simp
  then show ?thesis
    by (simp add: gameLoop_def schedule_def Let_def notifyStateUpdate_def emit_def)
qed

lemma selectType_mem: "selectType r c ts sel \<in> insert sel (set ts)"
  by (induction ts arbitrary: c) auto

lemma levelGate_score: "sel \<in> set itemTypes \<Longrightarrow> 0 \<le> def_score (levelGate lv sel)"
  by (auto simp add: levelGate_def itemTypes_def Let_def)

lemma spawnItem_inv: "score_level_inv s \<Longrightarrow> score_level_inv (spawnItem d s)"
proof -
  assume a: "score_level_inv s"
  have "selectType (draw_type d) 0 itemTypes (itemTypes ! 0) \<in> set itemTypes"
    using selectType_mem [of "draw_type d" 0 itemTypes "itemTypes ! 0"]
    by (auto simp add: itemTypes_def)
  then have "0 \<le> def_score (levelGate (level s) (selectType (draw_type d) 0 itemTypes (itemTypes ! 0)))"
    by (rule levelGate_score)
  with a show ?thesis
    by (simp add: score_level_inv_def spawnItem_def Let_def)
qed

lemma spawnLoop_inv: "score_level_inv s \<Longrightarrow> score_level_inv (spawnLoop d s)"
  using spawnItem_inv [of s d]
  by (simp add: spawnLoop_def schedule_def Let_def score_level_inv_def)

lemma spawnLoop_level: "level (spawnLoop d s) = level s"
  by (simp add: spawnLoop_def schedule_def Let_def spawnItem_def)

lemma stop_inv: "score_level_inv (stop s) = score_level_inv s"
  by (simp add: score_level_inv_def stop_fields)

lemma countdownTick_inv: "score_level_inv s \<Longrightarrow> score_level_inv (countdownTick s)"
  by (simp add: countdownTick_def Let_def stop_inv notify_inv) (simp add: score_level_inv_def)

lemma countdownTick_level: "level (countdownTick s) = level s"
  by (simp add: countdownTick_def Let_def stop_fields notifyStateUpdate_def emit_def)

lemma cancel_inv: "score_level_inv (cancel h s) = score_level_inv s"
  by (simp add: score_level_inv_def cancel_def)

lemma fire_inv: "score_level_inv s \<Longrightarrow> score_level_inv (fire h d s)"
  by (simp add: fire_def countdownTick_inv spawnLoop_inv gameLoop_inv cancel_inv
        split: option.splits task.splits)

lemma fire_level_mono: "level s \<le> level (fire h d s)"
proof -
  have "level s \<le> level (gameLoop (cancel h s))"
    using gameLoop_level_mono [of "cancel h s"] by (simp add: cancel_def)
  then show ?thesis
    by (simp add: fire_def countdownTick_level spawnLoop_level cancel_def
          split: option.splits task.splits)
qed

lemma start_inv: "score_level_inv (start cfg d s)"
proof -
  let ?s1 = "s\<lparr>isGameActive := True, score := 0, level := 1,
                timeLimit := timeLimit_or_default cfg, basketPosition := 1, items := []\<rparr>"
  have "score_level_inv ?s1" by (simp add: score_level_inv_def)
  then have "score_level_inv (if timeLimit ?s1 > 0 then startTimer ?s1 else ?s1)"
    by (simp add: score_level_inv_def startTimer_def schedule_def)
  then show ?thesis
    unfolding start_def Let_def by (intro iffD2 [OF notify_inv] gameLoop_inv spawnLoop_inv)
qed

lemma onPoseDetected_inv: "score_level_inv (onPoseDetected p s) = score_level_inv s"
  by (simp add: onPoseDetected_def score_level_inv_def)

lemma perform_inv: "score_level_inv s \<Longrightarrow> score_level_inv (perform a s)"
  by (cases a) (simp_all add: start_inv stop_inv onPoseDetected_inv fire_inv, simp_all add: score_level_inv_def)

lemma reachable_inv: "reachable s \<Longrightarrow> score_level_inv s"
  by (induction rule: reachable.induct) (simp_all add: perform_inv, simp add: score_level_inv_def constructor_def)

lemma perform_level_mono: "\<not> is_Start a \<Longrightarrow> level s \<le> level (perform a s)"
  by (cases a) (simp_all add: stop_fields fire_level_mono onPoseDetected_def)

subsection \<open>The states inside a tick\<close>

text \<open>
  The recorded states are those of the loop (its result is the last of them, up to
  the item list), an action with a tick input is that tick, and every recorded state
  satisfies the invariant, its level lying between the level at the start of the tick
  and the level at its end.
\<close>

lemma checkCollisions_loop_level_mono: "level s \<le> level (checkCollisions_loop n s)"
proof (induction n arbitrary: s)
  case 0
  show ?case by simp
next
  case (Suc n)
  let ?it = "items s ! n"
  let ?s1 = "handleItemCollection ?it s"
  have "level s \<le> level ?s1" by (rule handle_level_mono)
  also have "level ?s1 = level (?s1\<lparr>items := splice_at n (items ?s1)\<rparr>)" by simp
  also have "\<dots> \<le> level (checkCollisions_loop n (?s1\<lparr>items := splice_at n (items ?s1)\<rparr>))"
    by (rule Suc.IH)
  finally show ?case using Suc.IH [of s] by (simp add: Let_def)
qed

lemma checkCollisions_states_inv:
  "n \<le> length (items s) \<Longrightarrow> score_level_inv s \<Longrightarrow> t \<in> set (checkCollisions_states n s) \<Longrightarrow>
     0 \<le> score t \<and> level t = score t div 500 + 1 \<and>
     level s \<le> level t \<and> level t \<le> level (checkCollisions_loop n s)"
proof (induction n arbitrary: s)
  case 0
  then show ?case by simp
next
  case (Suc n)
  let ?it = "items s ! n"
  let ?s1 = "handleItemCollection ?it s"
  let ?s2 = "?s1\<lparr>items := splice_at n (items ?s1)\<rparr>"
  from Suc.prems have n: "n < length (items s)" by simp
  show ?case
  proof (cases "\<bar>item_y ?it - 500\<bar> < 30 \<and> item_lane ?it = basketPosition s")
    case False
    with Suc.prems have "t \<in> set (checkCollisions_states n s)" by (auto simp add: Let_def)
    with Suc.IH [of s] Suc.prems n False show ?thesis by (auto simp add: Let_def)
  next
    case True
    have it: "0 \<le> item_score ?it"
      using Suc.prems(2) n by (simp add: score_level_inv_def)
    have core: "0 \<le> score ?s1 \<and> level ?s1 = score ?s1 div 500 + 1"
      using handle_core [of s ?it] Suc.prems(2) it by (simp add: score_level_inv_def)
    have mono: "level s \<le> level ?s1" by (rule handle_level_mono)
    have sub: "set (splice_at n (items s)) \<subseteq> set (items s)"
      by (auto simp add: splice_at_def dest: in_set_takeD in_set_dropD)
    have inv2: "score_level_inv ?s2"
      using core sub Suc.prems(2)
      by (auto simp add: score_level_inv_def handleItemCollection_items)
    have len: "n \<le> length (items ?s2)"
      using n by (simp add: handleItemCollection_items splice_at_def)
    have loop: "checkCollisions_loop (Suc n) s = checkCollisions_loop n ?s2"
      using True by (simp add: Let_def)
    from Suc.prems(3) True
    have "t = ?s1 \<or> t \<in> set (checkCollisions_states n ?s2)" by (auto simp add: Let_def)
    then show ?thesis
    proof
      assume "t = ?s1"
      moreover have "level ?s1 \<le> level (checkCollisions_loop n ?s2)"
        using checkCollisions_loop_level_mono [of ?s2 n] by simp
      ultimately show ?thesis using core mono loop by simp
    next
      assume "t \<in> set (checkCollisions_states n ?s2)"
      with Suc.IH [OF len inv2] have
        "0 \<le> score t \<and> level t = score t div 500 + 1 \<and>
         level ?s2 \<le> level t \<and> level t \<le> level (checkCollisions_loop n ?s2)" by simp
      with mono loop show ?thesis by simp
    qed
  qed
qed

lemma collection_states_inv:
  "score_level_inv u \<Longrightarrow> t \<in> set (collection_states u) \<Longrightarrow>
     0 \<le> score t \<and> level t = score t div 500 + 1 \<and>
     level u \<le> level t \<and> level t \<le> level (gameLoop u)"
proof -
  assume inv: "score_level_inv u" and t: "t \<in> set (collection_states u)"
  from t have act: "isGameActive u" by (auto simp add: collection_states_def split: if_splits)
  let ?v = "updateItems u"
  have "score_level_inv ?v" using inv by (rule updateItems_inv)
  moreover have "t \<in> set (checkCollisions_states (length (items ?v)) ?v)"
    using t act by (simp add: collection_states_def)
  ultimately have
    "0 \<le> score t \<and> level t = score t div 500 + 1 \<and>
     level ?v \<le> level t \<and> level t \<le> level (checkCollisions_loop (length (items ?v)) ?v)"
    using checkCollisions_states_inv [of "length (items ?v)" ?v t] by simp
  moreover have "level ?v = level u" by (simp add: updateItems_filter)
  moreover have "level (gameLoop u) = level (checkCollisions ?v)"
    using act by (simp add: gameLoop_def schedule_def Let_def notifyStateUpdate_def emit_def)
  ultimately show ?thesis by (simp add: checkCollisions_def)
qed

lemma tick_input_perform:
  "tick_input a s = Some u \<Longrightarrow>
     perform a s = (if is_Start a then notifyStateUpdate (gameLoop u) else gameLoop u)"
  by (cases a) (auto simp add: start_def fire_def Let_def split: option.splits task.splits)

lemma tick_input_inv: "score_level_inv s \<Longrightarrow> tick_input a s = Some u \<Longrightarrow> score_level_inv u"
proof (cases a)
  case (Start cfg d)
  assume "tick_input a s = Some u"
  let ?s1 = "s\<lparr>isGameActive := True, score := 0, level := 1,
                timeLimit := timeLimit_or_default cfg, basketPosition := 1, items := []\<rparr>"
  have "score_level_inv ?s1" by (simp add: score_level_inv_def)
  then have "score_level_inv (if timeLimit ?s1 > 0 then startTimer ?s1 else ?s1)"
    by (simp add: score_level_inv_def startTimer_def schedule_def)
  then have "score_level_inv (spawnLoop d (if timeLimit ?s1 > 0 then startTimer ?s1 else ?s1))"
    by (rule spawnLoop_inv)
  with Start \<open>tick_input a s = Some u\<close> show ?thesis by (auto simp add: Let_def)
qed (auto simp add: cancel_inv split: option.splits task.splits)

lemma checkCollisions_states_last:
  "checkCollisions_loop n s =
     (last (s # checkCollisions_states n s))\<lparr>items := items (checkCollisions_loop n s)\<rparr>"
proof (induction n arbitrary: s)
  case 0
  show ?case by simp
next
  case (Suc n)
  let ?it = "items s ! n"
  let ?s1 = "handleItemCollection ?it s"
  let ?s2 = "?s1\<lparr>items := splice_at n (items ?s1)\<rparr>"
  show ?case
  proof (cases "\<bar>item_y ?it - 500\<bar> < 30 \<and> item_lane ?it = basketPosition s")
    case False
    then show ?thesis using Suc.IH [of s] by (auto simp add: Let_def)
  next
    case True
    have "checkCollisions_loop n ?s2 =
            (last (?s2 # checkCollisions_states n ?s2))\<lparr>items := items (checkCollisions_loop n ?s2)\<rparr>"
      by (rule Suc.IH)
    then have "checkCollisions_loop n ?s2 =
            (last (?s1 # checkCollisions_states n ?s2))\<lparr>items := items (checkCollisions_loop n ?s2)\<rparr>"
      by (cases "checkCollisions_states n ?s2 = []") simp_all
    with True show ?thesis by (simp add: Let_def)
  qed
qed

subsection \<open>A run that scores\<close>

lemma five_apples_eq:
  "five_apples =
    \<lparr>score = 100, level = 1, timeLimit = 60, isGameActive = True,
     gameTimer = Some 1, basketPosition = 1,
     items =
      [\<lparr>item_id = 2, item_type = Apple, item_score = 100,
          item_speed = 11 / 2, item_lane = 1, item_y = 467\<rparr>,
       \<lparr>item_id = 3, item_type = Apple, item_score = 100,
          item_speed = 11 / 2, item_lane = 1, item_y = 467\<rparr>,
       \<lparr>item_id = 4, item_type = Apple, item_score = 100,
          item_speed = 11 / 2, item_lane = 1, item_y = 467\<rparr>,
       \<lparr>item_id = 5, item_type = Apple, item_score = 100,
          item_speed = 11 / 2, item_lane = 1, item_y = 467\<rparr>],
     animationId = Some 101, itemSpawnTimer = Some 7, onScoreChange = True,
     onGameEnd = False, onGameStateUpdate = False,
     scheduled =
      [(1, CountdownInterval 1000), (7, SpawnTimeout 2600), (101, AnimationFrame)],
     nextHandle = 102, emitted = [ScoreChange 100 1]\<rparr>"
  by (simp add: five_apples_def next_frame_def fire_def start_def startTimer_def schedule_def
        spawnLoop_def spawnItem_level_1 spawnRate_def gameLoop_def updateItems_filter
        checkCollisions_foldr collides_def fall_def notifyStateUpdate_def emit_def Let_def
        cancel_def constructor_def timeLimit_or_default_def handleItemCollection_def
        addScore_def eval_nat_numeral)

lemma reachable_next_frame: "reachable s \<Longrightarrow> reachable (next_frame s)"
  unfolding next_frame_def by (cases "animationId s") (simp_all add: reachable_perform del: perform.simps)

lemma reachable_frames: "reachable s \<Longrightarrow> reachable ((next_frame ^^ n) s)"
  by (induction n) (simp_all add: reachable_next_frame)

lemma reachable_five_apples: "reachable five_apples"
  unfolding five_apples_def
  by (intro reachable_frames reachable_perform reachable_constructor)

section \<open>Properties of the engine\<close>

subsection \<open>Stopping\<close>

text \<open>
  C1. The property: once \<open>stop\<close> has returned, the engine changes no state and emits
  no state update, also when \<open>stop\<close> is reached through a bomb collected inside a tick.
  The tick below shows what the code does there. The loop of \<open>checkCollisions\<close> meets
  the bomb first (it has the higher index): \<open>stop\<close> runs, the end of the game is
  announced with score 1000. The loop then goes on: it removes the bomb, collects the
  apple below it and raises the score to 1100, announcing the change; \<open>gameLoop\<close>
  then emits a state update and asks the host for another frame.
\<close>

theorem gameLoop_after_bomb:
  "isGameActive bomb_tick_state \<and>
   \<not> isGameActive (gameLoop bomb_tick_state) \<and>
   score bomb_tick_state = 1000 \<and>
   score (gameLoop bomb_tick_state) = 1100 \<and>
   items (gameLoop bomb_tick_state) = [] \<and>
   scheduled (gameLoop bomb_tick_state) = [(9, AnimationFrame)] \<and>
   emitted (gameLoop bomb_tick_state) =
     [GameEnd 1000 3, Alert, ScoreChange 1100 3,
      StateUpdate \<lparr>snap_basketPosition = 1, snap_items = [], snap_timeLimit = 30,
                   snap_score = 1100, snap_level = 3\<rparr>]"
  by (simp add: bomb_tick_state_def constructor_def gameLoop_def updateItems_filter
        checkCollisions_foldr collides_def fall_def handleItemCollection_def stop_def
        clearTimer_def cancel_def emit_def addScore_def notifyStateUpdate_def schedule_def
        Let_def)

subsection \<open>Starting\<close>

text \<open>
  C2. The property: \<open>start\<close> with a time limit of 0 sets up a game without a
  countdown, the remaining time being 0. The code at this input: 0 is falsy, so
  \<open>config.timeLimit || 60\<close> yields 60; the remaining time is 60 and the countdown is
  scheduled, whatever the state and the draws.
\<close>

theorem start_timeLimit_zero:
  "timeLimit (start \<lparr>cfg_timeLimit = Some 0\<rparr> d s) = 60 \<and>
   gameTimer (start \<lparr>cfg_timeLimit = Some 0\<rparr> d s) = Some (nextHandle s) \<and>
   (nextHandle s, CountdownInterval 1000) \<in> set (scheduled (start \<lparr>cfg_timeLimit = Some 0\<rparr> d s))"
  using start_timers [of "\<lparr>cfg_timeLimit = Some 0\<rparr>" d s]
        start_countdown_scheduled [of "\<lparr>cfg_timeLimit = Some 0\<rparr>" s d]
  by (simp add: timeLimit_or_default_def)

text \<open>
  C10. When the \<open>timeLimit\<close> of the configuration is absent or falsy, \<open>start\<close>
  sets the remaining time to 60 and schedules the countdown, whose handle it stores.
\<close>

theorem start_default_timeLimit:
  "cfg_timeLimit cfg = None \<or> cfg_timeLimit cfg = Some 0 \<Longrightarrow>
     timeLimit (start cfg d s) = 60 \<and>
     gameTimer (start cfg d s) = Some (nextHandle s) \<and>
     (nextHandle s, CountdownInterval 1000) \<in> set (scheduled (start cfg d s))"
proof -
  assume "cfg_timeLimit cfg = None \<or> cfg_timeLimit cfg = Some 0"
  then have d: "timeLimit_or_default cfg = 60" by (auto simp add: timeLimit_or_default_def)
  show ?thesis
    using start_timers [of cfg d s] start_countdown_scheduled [of cfg s d] by (simp add: d)
qed

theorem start_default_timeLimit_witness:
  "timeLimit (start \<lparr>cfg_timeLimit = None\<rparr> \<lparr>draw_lane = 1 / 2, draw_type = 1 / 2, draw_id = 1\<rparr> constructor) = 60 \<and>
   gameTimer (start \<lparr>cfg_timeLimit = None\<rparr> \<lparr>draw_lane = 1 / 2, draw_type = 1 / 2, draw_id = 1\<rparr> constructor) = Some 1 \<and>
   (1, CountdownInterval 1000) \<in> set (scheduled (start \<lparr>cfg_timeLimit = None\<rparr> \<lparr>draw_lane = 1 / 2, draw_type = 1 / 2, draw_id = 1\<rparr> constructor))"
  using start_default_timeLimit [of "\<lparr>cfg_timeLimit = None\<rparr>" "\<lparr>draw_lane = 1 / 2, draw_type = 1 / 2, draw_id = 1\<rparr>" constructor]
  by (simp add: constructor_def)

subsection \<open>Collecting a bomb\<close>

text \<open>
  C3. Collecting a bomb leaves the engine inactive, with score and level as they were;
  what it emits is the end of the game, carrying that score and level (when an end
  callback is registered), followed by the alert, and no score change.
\<close>

theorem handleItemCollection_bomb:
  "item_type it = Bomb \<Longrightarrow>
     \<not> isGameActive (handleItemCollection it s) \<and>
     score (handleItemCollection it s) = score s \<and>
     level (handleItemCollection it s) = level s \<and>
     emitted (handleItemCollection it s) =
       emitted s @ (if onGameEnd s then [GameEnd (score s) (level s)] else []) @ [Alert]"
  by (simp add: handleItemCollection_def stop_def clearTimer_def cancel_def emit_def Let_def
        split: option.splits)

theorem handleItemCollection_bomb_witness:
  "\<not> isGameActive (handleItemCollection
        \<lparr>item_id = 2, item_type = Bomb, item_score = 0, item_speed = 15 / 2,
          item_lane = 1, item_y = 475\<rparr> bomb_tick_state) \<and>
   score (handleItemCollection
        \<lparr>item_id = 2, item_type = Bomb, item_score = 0, item_speed = 15 / 2,
          item_lane = 1, item_y = 475\<rparr> bomb_tick_state) = 1000 \<and>
   emitted (handleItemCollection
        \<lparr>item_id = 2, item_type = Bomb, item_score = 0, item_speed = 15 / 2,
          item_lane = 1, item_y = 475\<rparr> bomb_tick_state) = [GameEnd 1000 3, Alert]"
  using handleItemCollection_bomb [of "\<lparr>item_id = 2, item_type = Bomb, item_score = 0, item_speed = 15 / 2,
          item_lane = 1, item_y = 475\<rparr>" bomb_tick_state]
  by (simp add: bomb_tick_state_def constructor_def)

subsection \<open>Score and level\<close>

text \<open>
  C4. In every state the engine can reach, the score is not negative and the level is
  \<open>score div 500 + 1\<close>; no action other than a new \<open>start\<close> lowers the level. The
  same holds inside a tick: right after each collection, so after every \<open>addScore\<close>,
  the score is not negative and the level is \<open>score div 500 + 1\<close>, and that level lies
  between the level at the start of the tick and the level after the action.
\<close>

theorem score_level_invariant:
  "reachable s \<Longrightarrow>
     0 \<le> score s \<and> level s = score s div 500 + 1 \<and>
     (\<not> is_Start a \<longrightarrow> level s \<le> level (perform a s)) \<and>
     (\<forall>u t. tick_input a s = Some u \<and> t \<in> set (collection_states u) \<longrightarrow>
        0 \<le> score t \<and> level t = score t div 500 + 1 \<and>
        level u \<le> level t \<and> level t \<le> level (perform a s))"
proof -
  assume "reachable s"
  then have inv: "score_level_inv s" by (rule reachable_inv)
  have nonneg: "0 \<le> score s" and lev: "level s = score s div 500 + 1"
    using inv by (simp_all add: score_level_inv_def)
  have mono: "\<not> is_Start a \<longrightarrow> level s \<le> level (perform a s)"
    by (intro impI perform_level_mono)
  have states: "\<forall>u t. tick_input a s = Some u \<and> t \<in> set (collection_states u) \<longrightarrow>
        0 \<le> score t \<and> level t = score t div 500 + 1 \<and>
        level u \<le> level t \<and> level t \<le> level (perform a s)"
  proof (intro allI impI, elim conjE)
    fix u t
    assume u: "tick_input a s = Some u" and t: "t \<in> set (collection_states u)"
    have "score_level_inv u" using inv u by (rule tick_input_inv)
    then have *: "0 \<le> score t \<and> level t = score t div 500 + 1 \<and>
        level u \<le> level t \<and> level t \<le> level (gameLoop u)"
      using t by (rule collection_states_inv)
    have "perform a s = (if is_Start a then notifyStateUpdate (gameLoop u) else gameLoop u)"
      using u by (rule tick_input_perform)
    then have "level (perform a s) = level (gameLoop u)"
      by (cases "is_Start a") (simp_all add: notifyStateUpdate_def emit_def)
    with * show "0 \<le> score t \<and> level t = score t div 500 + 1 \<and>
        level u \<le> level t \<and> level t \<le> level (perform a s)" by simp
  qed
  show ?thesis by (intro conjI nonneg lev mono states)
qed

theorem score_level_invariant_witness:
  "reachable five_apples \<and>
   score five_apples = 100 \<and> level five_apples = 1 \<and>
   tick_input (Fire 101 \<lparr>draw_lane = 0, draw_type = 0, draw_id = 0\<rparr>) five_apples
     = Some (cancel 101 five_apples) \<and>
   map (\<lambda>t. (score t, level t)) (collection_states (cancel 101 five_apples))
     = [(200, 1), (300, 1), (400, 1), (500, 2)] \<and>
   score (perform (Fire 101 \<lparr>draw_lane = 0, draw_type = 0, draw_id = 0\<rparr>) five_apples) = 500 \<and>
   level (perform (Fire 101 \<lparr>draw_lane = 0, draw_type = 0, draw_id = 0\<rparr>) five_apples) = 2"
proof -
  let ?a = "Fire 101 \<lparr>draw_lane = 0, draw_type = 0, draw_id = 0\<rparr>"
  let ?xs = "collection_states (cancel 101 five_apples)"
  note inv = score_level_invariant [OF reachable_five_apples, of ?a]
  have sc: "score five_apples = 100" by (simp add: five_apples_eq)
  from inv have "level five_apples = score five_apples div 500 + 1" by (elim conjE)
  with sc have lev: "level five_apples = 1" by simp
  have ti: "tick_input ?a five_apples = Some (cancel 101 five_apples)"
    by (simp add: five_apples_eq)
  have st: "map (\<lambda>t. (score t, level t)) ?xs = [(200, 1), (300, 1), (400, 1), (500, 2)]"
    by (simp add: five_apples_eq cancel_def collection_states_def updateItems_filter fall_def
          handleItemCollection_def addScore_def emit_def splice_at_def Let_def)
  have ne: "?xs \<noteq> []"
  proof
    assume "?xs = []"
    with st show False by simp
  qed
  have "last (map (\<lambda>t. (score t, level t)) ?xs) = (500, 2)" by (simp add: st)
  then have l2: "level (last ?xs) = 2" using ne by (simp add: last_map)
  have mem: "last ?xs \<in> set ?xs" using ne by (rule last_in_set)
  from inv have "\<forall>u t. tick_input ?a five_apples = Some u \<and> t \<in> set (collection_states u) \<longrightarrow>
        0 \<le> score t \<and> level t = score t div 500 + 1 \<and>
        level u \<le> level t \<and> level t \<le> level (perform ?a five_apples)"
    by (elim conjE)
  with ti mem have "level (last ?xs) \<le> level (perform ?a five_apples)" by blast
  with l2 have ge: "2 \<le> level (perform ?a five_apples)" by simp
  have pf: "score (perform ?a five_apples) = 500 \<and> level (perform ?a five_apples) \<le> 2"
    by (simp add: five_apples_eq fire_def gameLoop_def updateItems_filter checkCollisions_foldr
          collides_def fall_def handleItemCollection_def addScore_def emit_def
          notifyStateUpdate_def schedule_def cancel_def Let_def)
  with ge have l: "level (perform ?a five_apples) = 2" by simp
  show ?thesis by (intro conjI reachable_five_apples sc lev ti st l conjunct1 [OF pf])
qed

subsection \<open>Spawning\<close>

text \<open>
  C5. The type of the item \<open>spawnItem\<close> appends, for every draw: below level 2 it is
  an apple; below level 3 it is not a bomb; at level 2 some draw in [0, 1) gives an
  orange; from level 3 on every type is given by some draw in [0, 1).
\<close>

theorem spawnItem_gating:
  "(level s < 2 \<longrightarrow> item_type (last (items (spawnItem d s))) = Apple) \<and>
   (level s < 3 \<longrightarrow> item_type (last (items (spawnItem d s))) \<noteq> Bomb) \<and>
   (2 \<le> level s \<and> level s < 3 \<longrightarrow>
      (\<exists>d'. 0 \<le> draw_type d' \<and> draw_type d' < 1 \<and>
            item_type (last (items (spawnItem d' s))) = Orange)) \<and>
   (3 \<le> level s \<longrightarrow>
      (\<forall>k. \<exists>d'. 0 \<le> draw_type d' \<and> draw_type d' < 1 \<and>
            item_type (last (items (spawnItem d' s))) = k))"
proof (intro conjI impI allI)
  assume "level s < 2"
  then show "item_type (last (items (spawnItem d s))) = Apple"
    by (cases "def_type (selectType (draw_type d) 0 itemTypes (itemTypes ! 0))")
       (simp_all add: spawnItem_def levelGate_def Let_def itemTypes_def)
next
  assume "level s < 3"
  then show "item_type (last (items (spawnItem d s))) \<noteq> Bomb"
    by (cases "def_type (selectType (draw_type d) 0 itemTypes (itemTypes ! 0))")
       (simp_all add: spawnItem_def levelGate_def Let_def itemTypes_def)
next
  assume "2 \<le> level s \<and> level s < 3"
  then have "item_type (last (items (spawnItem \<lparr>draw_lane = 0, draw_type = 7 / 10, draw_id = 0\<rparr> s))) = Orange"
    by (simp add: spawnItem_def levelGate_def Let_def itemTypes_def)
  then show "\<exists>d'. 0 \<le> draw_type d' \<and> draw_type d' < 1 \<and>
            item_type (last (items (spawnItem d' s))) = Orange"
    by (intro exI [of _ "\<lparr>draw_lane = 0, draw_type = 7 / 10, draw_id = 0\<rparr>"]) simp
next
  fix k
  assume l: "3 \<le> level s"
  let ?r = "case k of Apple \<Rightarrow> 3 / 10 | Orange \<Rightarrow> 7 / 10 | Bomb \<Rightarrow> (19 / 20 :: rat)"
  have "item_type (last (items (spawnItem \<lparr>draw_lane = 0, draw_type = ?r, draw_id = 0\<rparr> s))) = k"
    using l by (cases k) (simp_all add: spawnItem_def levelGate_def Let_def itemTypes_def)
  moreover have "0 \<le> ?r \<and> ?r < 1" by (cases k) simp_all
  ultimately show "\<exists>d'. 0 \<le> draw_type d' \<and> draw_type d' < 1 \<and>
            item_type (last (items (spawnItem d' s))) = k"
    by (intro exI [of _ "\<lparr>draw_lane = 0, draw_type = ?r, draw_id = 0\<rparr>"]) simp
qed

theorem spawnItem_gating_witness:
  "item_type (last (items (spawnItem \<lparr>draw_lane = 0, draw_type = 19 / 20, draw_id = 0\<rparr> constructor))) = Apple \<and>
   item_type (last (items (spawnItem \<lparr>draw_lane = 0, draw_type = 19 / 20, draw_id = 0\<rparr> (constructor\<lparr>level := 2\<rparr>)))) \<noteq> Bomb \<and>
   (\<exists>d'. 0 \<le> draw_type d' \<and> draw_type d' < 1 \<and>
         item_type (last (items (spawnItem d' (constructor\<lparr>level := 2\<rparr>)))) = Orange) \<and>
   (\<forall>k. \<exists>d'. 0 \<le> draw_type d' \<and> draw_type d' < 1 \<and>
         item_type (last (items (spawnItem d' (constructor\<lparr>level := 3\<rparr>)))) = k)"
  using spawnItem_gating [of constructor "\<lparr>draw_lane = 0, draw_type = 19 / 20, draw_id = 0\<rparr>"]
        spawnItem_gating [of "constructor\<lparr>level := 2\<rparr>" "\<lparr>draw_lane = 0, draw_type = 19 / 20, draw_id = 0\<rparr>"]
        spawnItem_gating [of "constructor\<lparr>level := 3\<rparr>" "\<lparr>draw_lane = 0, draw_type = 19 / 20, draw_id = 0\<rparr>"]
  by (simp add: constructor_def)

text \<open>
  C7. An active \<open>spawnLoop\<close> schedules its next run after
  \<open>max 800 (3000 - level * 400)\<close> milliseconds; that delay does not grow with the
  level and is at least 800.
\<close>

theorem spawnLoop_delay:
  "(isGameActive s \<longrightarrow>
      scheduled (spawnLoop d s) =
        scheduled s @ [(nextHandle s, SpawnTimeout (max 800 (3000 - level s * 400)))] \<and>
      itemSpawnTimer (spawnLoop d s) = Some (nextHandle s)) \<and>
   spawnRate L = max 800 (3000 - L * 400) \<and>
   (L \<le> L' \<longrightarrow> spawnRate L' \<le> spawnRate L) \<and>
   800 \<le> spawnRate L"
proof -
  have "L \<le> L' \<longrightarrow> spawnRate L' \<le> spawnRate L"
    unfolding spawnRate_def by linarith
  then show ?thesis
    by (simp add: spawnLoop_def spawnRate_def schedule_def spawnItem_def Let_def)
qed

theorem spawnLoop_delay_witness:
  "scheduled (spawnLoop \<lparr>draw_lane = 0, draw_type = 0, draw_id = 0\<rparr> (constructor\<lparr>isGameActive := True, level := 2\<rparr>))
     = [(1, SpawnTimeout 2200)] \<and>
   spawnRate 7 \<le> spawnRate 2 \<and> spawnRate 7 = 800"
  using spawnLoop_delay [of "constructor\<lparr>isGameActive := True, level := 2\<rparr>"
          "\<lparr>draw_lane = 0, draw_type = 0, draw_id = 0\<rparr>" 2 7]
        spawnLoop_delay [of "constructor\<lparr>isGameActive := True, level := 2\<rparr>"
          "\<lparr>draw_lane = 0, draw_type = 0, draw_id = 0\<rparr>" 7 7]
  by (simp add: constructor_def)

subsection \<open>The physics tick\<close>

text \<open>
  C6. In a tick, the items handed to \<open>handleItemCollection\<close> are those that, after
  the position update, are within 30 of the basket row and in the basket's lane, each
  of them once; they are gone from the collection after the tick, which holds exactly
  the other items that are still inside the play area. The basket does not move
  during the tick.
\<close>

theorem tick_collects:
  "isGameActive s \<Longrightarrow>
     checkCollisions (updateItems s) =
       (foldr handleItemCollection
          [it \<leftarrow> items (updateItems s). collides (basketPosition s) it] (updateItems s))
         \<lparr>items := [it \<leftarrow> items (updateItems s). \<not> collides (basketPosition s) it]\<rparr> \<and>
     items (gameLoop s) =
       [it \<leftarrow> map fall (items s). item_y it \<le> 600 \<and> \<not> collides (basketPosition s) it] \<and>
     basketPosition (gameLoop s) = basketPosition s"
  by (simp add: gameLoop_def schedule_def notifyStateUpdate_def emit_def Let_def
        checkCollisions_foldr foldr_handle_items_update foldr_handle_basket
        updateItems_filter)

theorem tick_collects_witness:
  "items (gameLoop catch_state) =
     [\<lparr>item_id = 2, item_type = Apple, item_score = 100, item_speed = 11 / 2,
       item_lane = 0, item_y = 945 / 2\<rparr>] \<and>
   basketPosition (gameLoop catch_state) = 2"
  using tick_collects [of catch_state]
  by (simp add: catch_state_def constructor_def fall_def collides_def)

text \<open>
  C8. \<open>updateItems\<close> removes every item whose new position exceeds 600, keeps the
  others at their new position, and changes no other field: score, level, remaining
  time and basket lane are as before.
\<close>

theorem updateItems_removes_escaped:
  "updateItems s = s\<lparr>items := [it \<leftarrow> map fall (items s). item_y it \<le> 600]\<rparr> \<and>
   score (updateItems s) = score s \<and> level (updateItems s) = level s \<and>
   timeLimit (updateItems s) = timeLimit s \<and> basketPosition (updateItems s) = basketPosition s"
  by (simp add: updateItems_filter)

theorem updateItems_removes_escaped_witness:
  "items (updateItems catch_state) =
     [\<lparr>item_id = 1, item_type = Apple, item_score = 100, item_speed = 11 / 2,
       item_lane = 2, item_y = 945 / 2\<rparr>,
      \<lparr>item_id = 2, item_type = Apple, item_score = 100, item_speed = 11 / 2,
       item_lane = 0, item_y = 945 / 2\<rparr>] \<and>
   score (updateItems catch_state) = 0"
  using updateItems_removes_escaped [of catch_state]
  by (simp add: catch_state_def constructor_def fall_def)

subsection \<open>Basket control\<close>

text \<open>
  C9. The basket mutator acts only while the engine is active. On an inactive engine
  every call returns the state it was given. On an active engine the names Left,
  Center and Right set the basket lane to 0, 1 and 2, and the state is otherwise the
  one it was given.
\<close>

theorem onPoseDetected_lane:
  "(\<not> isGameActive s \<longrightarrow> onPoseDetected p s = s) \<and>
   (isGameActive s \<longrightarrow>
      onPoseDetected ''Left'' s = s\<lparr>basketPosition := 0\<rparr> \<and>
      onPoseDetected ''Center'' s = s\<lparr>basketPosition := 1\<rparr> \<and>
      onPoseDetected ''Right'' s = s\<lparr>basketPosition := 2\<rparr>)"
  by (simp add: onPoseDetected_def)

theorem onPoseDetected_lane_witness:
  "onPoseDetected ''Right'' (constructor\<lparr>isGameActive := True\<rparr>)
     = constructor\<lparr>isGameActive := True, basketPosition := 2\<rparr> \<and>
   onPoseDetected ''Right'' constructor = constructor"
  using onPoseDetected_lane [of "constructor\<lparr>isGameActive := True\<rparr>" "''Right''"]
        onPoseDetected_lane [of constructor "''Right''"]
  by (simp add: constructor_def)

end
